theory Spec2Isabelle
  imports Complex_Main
begin

section \<open>Vectors and events\<close>

text \<open>
  \<^verbatim>\<open>IVec2\<close> of \<^verbatim>\<open>common/index.ts\<close>. The fields \<^verbatim>\<open>x\<close> and \<^verbatim>\<open>y\<close> are
  called \<open>vec_x\<close> and \<open>vec_y\<close>, so that \<open>x\<close> and \<open>y\<close> stay usable as variables.
  A JavaScript \<^verbatim>\<open>number\<close> is read as a real number.
\<close>

record IVec2 =
  vec_x :: real
  vec_y :: real

text \<open>
  The modifier flags that mouse, touch and keyboard events all carry
  (\<^verbatim>\<open>ctrlKey\<close>, \<^verbatim>\<open>metaKey\<close>, \<^verbatim>\<open>shiftKey\<close>, \<^verbatim>\<open>altKey\<close>).
\<close>

record Modifiers =
  ctrlKey :: bool
  metaKey :: bool
  shiftKey :: bool
  altKey :: bool

text \<open>
  The argument of \<^verbatim>\<open>onMotionEvent\<close> and \<^verbatim>\<open>onPointerDownEvent\<close> is a
  \<^verbatim>\<open>MouseEvent | TouchEvent\<close>. A mouse event has \<^verbatim>\<open>clientX\<close>, \<^verbatim>\<open>clientY\<close> and the
  \<^verbatim>\<open>buttons\<close> bit mask; a touch event has the list \<^verbatim>\<open>touches\<close>, of which the
  handlers read the client coordinates of the first entry.
\<close>

datatype Event =
    MouseEvent (clientX: real) (clientY: real) (buttons: nat) (modifiers: Modifiers)
  | TouchEvent (touches: "IVec2 list") (modifiers: Modifiers)

datatype KeyboardEvent = KeyboardEvent (key_modifiers: Modifiers)

text \<open>
  \<^verbatim>\<open>event.touches[0].clientX\<close> on an empty touch list reads a property of
  \<^verbatim>\<open>undefined\<close>, which throws a \<^verbatim>\<open>TypeError\<close>.
\<close>

datatype Error = TypeError

section \<open>The vector helpers of the math module\<close>

text \<open>
  The module \<^verbatim>\<open>renderer/math\<close>, from which the tracker uses \<^verbatim>\<open>subtract\<close>,
  \<^verbatim>\<open>getLength\<close>, \<^verbatim>\<open>getDistance\<close> and \<^verbatim>\<open>getAngle\<close>, is not among the sources.
  The first three follow the spec. \<^verbatim>\<open>getAngle\<close> is only described there as "0 is up,
  clockwise positive"; it is a parameter \<open>ga\<close> of the functions below that call it.
\<close>

text \<open>
  Modelled from the spec: \<^verbatim>\<open>math.subtract\<close> is missing; the spec has the relative
  position as the position minus the active item's position.
\<close>

definition subtract :: "IVec2 \<Rightarrow> IVec2 \<Rightarrow> IVec2" where
  "subtract a b = \<lparr>vec_x = vec_x a - vec_x b, vec_y = vec_y a - vec_y b\<rparr>"

text \<open>
  Modelled from the spec: \<^verbatim>\<open>math.getLength\<close> is missing; the spec has the distance as
  the length of the relative vector.
\<close>

definition getLength :: "IVec2 \<Rightarrow> real" where
  "getLength v = sqrt (vec_x v * vec_x v + vec_y v * vec_y v)"

text \<open>
  Modelled from the spec: \<^verbatim>\<open>math.getDistance\<close> is missing; the spec has the distance
  from the click origin as the Euclidean one (from (0,0), the point (3,4) is at
  distance 5 and (6,8) at distance 10).
\<close>

definition getDistance :: "IVec2 \<Rightarrow> IVec2 \<Rightarrow> real" where
  "getDistance a b = getLength (subtract a b)"

section \<open>The input tracker\<close>

definition DRAG_THRESHOLD :: real where
  "DRAG_THRESHOLD = 5"

datatype InputState = eReleased | eClicked | eDragging

text \<open>
  The fields of the class \<^verbatim>\<open>InputTracker\<close>, the private ones under the names of their
  getters. The tracker is an \<^verbatim>\<open>EventEmitter\<close>: \<open>emitted\<close> is the sequence of
  \<^verbatim>\<open>pointer-motion\<close> notifications it has sent so far, oldest first, each with its two
  arguments (the absolute position and the dragging flag).
\<close>

record InputTracker =
  state :: InputState
  absolutePosition :: IVec2
  relativePosition :: IVec2
  angle :: real
  distance :: real
  deferredTurboMode :: bool
  clickPosition :: IVec2
  ignoreMotionEvents :: int
  turboMode :: bool
  emitted :: "(IVec2 \<times> bool) list"

definition newInputTracker :: InputTracker where
  "newInputTracker =
     \<lparr>state = eReleased,
      absolutePosition = \<lparr>vec_x = 0, vec_y = 0\<rparr>,
      relativePosition = \<lparr>vec_x = 0, vec_y = 0\<rparr>,
      angle = 0,
      distance = 0,
      deferredTurboMode = False,
      clickPosition = \<lparr>vec_x = 0, vec_y = 0\<rparr>,
      ignoreMotionEvents = 0,
      turboMode = False,
      emitted = []\<rparr>"

text \<open>The setter \<^verbatim>\<open>set deferredTurboMode(val)\<close>.\<close>

definition set_deferredTurboMode :: "bool \<Rightarrow> InputTracker \<Rightarrow> InputTracker" where
  "set_deferredTurboMode val t = t\<lparr>deferredTurboMode := val, turboMode := False\<rparr>"

text \<open>
  \<^verbatim>\<open>update(position, activeItemPosition?)\<close>: an absent second argument is \<open>None\<close>, and
  \<^verbatim>\<open>activeItemPosition || position\<close> then takes the position itself.
\<close>

definition update ::
  "(IVec2 \<Rightarrow> real) \<Rightarrow> IVec2 \<Rightarrow> IVec2 option \<Rightarrow> InputTracker \<Rightarrow> InputTracker" where
  "update ga position activeItemPosition t =
     (let active = (case activeItemPosition of None \<Rightarrow> position | Some a \<Rightarrow> a);
          t1 = t\<lparr>absolutePosition := position\<rparr>;
          t2 = t1\<lparr>relativePosition := subtract position active\<rparr>;
          t3 = t2\<lparr>distance := getLength (relativePosition t2)\<rparr>
      in t3\<lparr>angle := ga (relativePosition t3)\<rparr>)"

text \<open>
  The position that both pointer handlers read off their event: the client coordinates
  of a mouse event, those of the first touch of a touch event.
\<close>

fun eventPosition :: "Event \<Rightarrow> Error + IVec2" where
  "eventPosition (MouseEvent cx cy b m) = Inr \<lparr>vec_x = cx, vec_y = cy\<rparr>"
| "eventPosition (TouchEvent [] m) = Inl TypeError"
| "eventPosition (TouchEvent (p # ps) m) = Inr p"

fun isMouseEvent :: "Event \<Rightarrow> bool" where
  "isMouseEvent (MouseEvent cx cy b m) = True"
| "isMouseEvent (TouchEvent ps m) = False"

definition anyModifier :: "Modifiers \<Rightarrow> bool" where
  "anyModifier m = (ctrlKey m \<or> metaKey m \<or> shiftKey m \<or> altKey m)"

text \<open>
  \<^verbatim>\<open>onMotionEvent(event, activeItemPosition)\<close>. The four steps after \<^verbatim>\<open>update\<close> are the
  drag threshold, the turbo latch, the forced or released state, and the emission.
  An exception leaves the tracker as it was: the only one is thrown while the
  position is read, before any field is assigned.
\<close>

definition onMotionEvent ::
  "(IVec2 \<Rightarrow> real) \<Rightarrow> Event \<Rightarrow> IVec2 \<Rightarrow> InputTracker \<Rightarrow> Error + InputTracker" where
  "onMotionEvent ga event activeItemPosition t =
     (if ignoreMotionEvents t > 0
      then Inr (t\<lparr>ignoreMotionEvents := ignoreMotionEvents t - 1\<rparr>)
      else case eventPosition event of
        Inl e \<Rightarrow> Inl e
      | Inr position \<Rightarrow>
          let t1 = update ga position (Some activeItemPosition) t;
              t2 = (if state t1 = eClicked \<and>
                       getDistance (absolutePosition t1) (clickPosition t1) > DRAG_THRESHOLD
                    then t1\<lparr>state := eDragging\<rparr> else t1);
              t3 = (if \<not> deferredTurboMode t2
                    then t2\<lparr>turboMode := (turboMode t2 \<or> ctrlKey (modifiers event) \<or>
                            metaKey (modifiers event) \<or> shiftKey (modifiers event) \<or>
                            altKey (modifiers event))\<rparr>
                    else t2);
              t4 = (if turboMode t3 then t3\<lparr>state := eDragging\<rparr>
                    else if isMouseEvent event \<and> state t3 = eDragging \<and> buttons event = 0
                    then t3\<lparr>state := eReleased\<rparr>
                    else t3)
          in Inr (t4\<lparr>emitted := emitted t4 @ [(absolutePosition t4, state t4 = eDragging)]\<rparr>))"

text \<open>\<^verbatim>\<open>onPointerDownEvent(event, activeItemPosition)\<close>.\<close>

definition onPointerDownEvent ::
  "(IVec2 \<Rightarrow> real) \<Rightarrow> Event \<Rightarrow> IVec2 \<Rightarrow> InputTracker \<Rightarrow> Error + InputTracker" where
  "onPointerDownEvent ga event activeItemPosition t =
     (case eventPosition event of
        Inl e \<Rightarrow> Inl e
      | Inr position \<Rightarrow>
          onMotionEvent ga event activeItemPosition
            (t\<lparr>clickPosition := position, state := eClicked\<rparr>))"

definition onPointerUpEvent :: "InputTracker \<Rightarrow> InputTracker" where
  "onPointerUpEvent t = t\<lparr>state := eReleased\<rparr>"

definition onKeyDownEvent :: "InputTracker \<Rightarrow> InputTracker" where
  "onKeyDownEvent t = (if \<not> deferredTurboMode t then t\<lparr>turboMode := True\<rparr> else t)"

definition onKeyUpEvent :: "KeyboardEvent \<Rightarrow> InputTracker \<Rightarrow> InputTracker" where
  "onKeyUpEvent event t =
     (let stillAnyModifierPressed =
            (ctrlKey (key_modifiers event) \<or> metaKey (key_modifiers event) \<or>
             shiftKey (key_modifiers event) \<or> altKey (key_modifiers event))
      in if \<not> stillAnyModifierPressed
         then t\<lparr>deferredTurboMode := False, turboMode := False\<rparr>
         else t)"

definition ignoreNextMotionEvents :: "InputTracker \<Rightarrow> InputTracker" where
  "ignoreNextMotionEvents t = t\<lparr>ignoreMotionEvents := 2\<rparr>"


text \<open>
  One call of the tracker's public interface, and a run of calls in order. An exception
  ends the call that threw it and leaves the tracker as it was; the next call finds
  that tracker.
\<close>

datatype Call =
    SetDeferredTurboMode bool
  | MotionEvent Event IVec2
  | PointerDownEvent Event IVec2
  | PointerUpEvent
  | KeyDownEvent
  | KeyUpEvent KeyboardEvent
  | Update IVec2 "IVec2 option"
  | IgnoreNextMotionEvents

definition orUnchanged :: "InputTracker \<Rightarrow> Error + InputTracker \<Rightarrow> InputTracker" where
  "orUnchanged t r = (case r of Inl e \<Rightarrow> t | Inr t' \<Rightarrow> t')"

fun call :: "(IVec2 \<Rightarrow> real) \<Rightarrow> Call \<Rightarrow> InputTracker \<Rightarrow> InputTracker" where
  "call ga (SetDeferredTurboMode val) t = set_deferredTurboMode val t"
| "call ga (MotionEvent event p) t = orUnchanged t (onMotionEvent ga event p t)"
| "call ga (PointerDownEvent event p) t = orUnchanged t (onPointerDownEvent ga event p t)"
| "call ga PointerUpEvent t = onPointerUpEvent t"
| "call ga KeyDownEvent t = onKeyDownEvent t"
| "call ga (KeyUpEvent event) t = onKeyUpEvent event t"
| "call ga (Update position active) t = update ga position active t"
| "call ga IgnoreNextMotionEvents t = ignoreNextMotionEvents t"

fun run :: "(IVec2 \<Rightarrow> real) \<Rightarrow> Call list \<Rightarrow> InputTracker \<Rightarrow> InputTracker" where
  "run ga [] t = t"
| "run ga (c # cs) t = run ga cs (call ga c t)"

fun isMotionCall :: "Call \<Rightarrow> bool" where
  "isMotionCall (MotionEvent event p) = True"
| "isMotionCall c = False"

text \<open>
  The calls that switch turbo mode off: a key-up with no modifier left, and an
  assignment to the setter.
\<close>

fun clearsTurbo :: "Call \<Rightarrow> bool" where
  "clearsTurbo (KeyUpEvent event) = (\<not> anyModifier (key_modifiers event))"
| "clearsTurbo (SetDeferredTurboMode val) = True"
| "clearsTurbo c = False"

section \<open>Menu items\<close>

text \<open>
  \<^verbatim>\<open>IMenuItem\<close>: the optional properties \<^verbatim>\<open>data\<close>, \<^verbatim>\<open>children\<close> and \<^verbatim>\<open>angle\<close> are
  options (\<open>None\<close> when the property is \<^verbatim>\<open>undefined\<close>), and the payload type
  \<^verbatim>\<open>unknown\<close> is the type parameter. The selectors carry the prefix \<open>item_\<close>, as
  \<^verbatim>\<open>name\<close> and \<^verbatim>\<open>angle\<close> occur in other interfaces too.
\<close>

datatype 'd IMenuItem =
  MenuItem
    (item_type: string)
    (item_data: "'d option")
    (item_name: string)
    (item_icon: string)
    (item_iconTheme: string)
    (item_children: "'d IMenuItem list option")
    (item_angle: "real option")

text \<open>
  \<^verbatim>\<open>deepCopyMenuItem\<close>: \<^verbatim>\<open>item.children?.map(deepCopyMenuItem)\<close> is \<^verbatim>\<open>undefined\<close> when
  there are no children and the mapped array otherwise.
\<close>

primrec deepCopyMenuItem :: "'d IMenuItem \<Rightarrow> 'd IMenuItem" where
  "deepCopyMenuItem (MenuItem ty dat nm ic th ch an) =
     MenuItem ty dat nm ic th (map_option (map deepCopyMenuItem) ch) an"

section \<open>The menu selector\<close>

text \<open>
  \<^verbatim>\<open>IMenuConditions\<close>, \<^verbatim>\<open>IMenu\<close> and \<^verbatim>\<open>IShowMenuRequest\<close> as the interfaces declare
  them (the root item of a menu is \<open>rootItem\<close>, as \<open>root\<close> is the n-th root of the
  reals). The invocation context is the one of the spec: the focused application, the
  focused window and the cursor position.
\<close>

record ScreenArea =
  xMin :: "real option"
  xMax :: "real option"
  yMin :: "real option"
  yMax :: "real option"

record IMenuConditions =
  windowName :: "string option"
  appName :: "string option"
  screenArea :: "ScreenArea option"

record 'd IMenu =
  rootItem :: "'d IMenuItem"
  shortcut :: string
  shortcutID :: string
  centered :: bool
  anchored :: bool
  conditions :: "IMenuConditions option"

record IShowMenuRequest =
  trigger :: string
  name :: string

record Context =
  focusedApp :: string
  focusedWindow :: string
  cursor :: IVec2

text \<open>
  The function that chooses the menu to show is not among the sources (only the
  interfaces above are); the definitions of this section follow the spec's section on
  the menu selector: a condition field that is present is satisfied or not; a menu's specificity
  score counts the present fields that are satisfied; a menu with a present field that
  is not satisfied is disqualified; of the menus whose trigger matches the request and
  that are not disqualified, the one with the highest score is returned, the earliest
  in the configured list on a tie, and none when no menu survives.
  Two tests are parameters, as the spec leaves their details to collaborators:
  \<open>tm\<close>, whether a menu's trigger matches the request, and \<open>sm\<close>, whether a context
  string matches a configured name (a case-insensitive substring, or a regular
  expression). A screen area is met when the cursor is inside the rectangle, a missing
  edge leaving that side unbounded.
\<close>

text \<open>
  Modelled from the spec: the screen-area test of the missing selector; the cursor lies
  within the rectangle, each edge that is given being a bound.
\<close>

definition inScreenArea :: "ScreenArea \<Rightarrow> IVec2 \<Rightarrow> bool" where
  "inScreenArea a p =
     ((case xMin a of None \<Rightarrow> True | Some v \<Rightarrow> v \<le> vec_x p) \<and>
      (case xMax a of None \<Rightarrow> True | Some v \<Rightarrow> vec_x p \<le> v) \<and>
      (case yMin a of None \<Rightarrow> True | Some v \<Rightarrow> v \<le> vec_y p) \<and>
      (case yMax a of None \<Rightarrow> True | Some v \<Rightarrow> vec_y p \<le> v))"

text \<open>
  Modelled from the spec: the condition fields of the missing selector, one entry for
  each field that is present, telling whether the context meets it.
\<close>

definition conditionResults ::
  "(string \<Rightarrow> string \<Rightarrow> bool) \<Rightarrow> Context \<Rightarrow> IMenuConditions option \<Rightarrow> bool list" where
  "conditionResults sm ctx cs =
     (case cs of
        None \<Rightarrow> []
      | Some c \<Rightarrow>
          (case windowName c of None \<Rightarrow> [] | Some w \<Rightarrow> [sm w (focusedWindow ctx)]) @
          (case appName c of None \<Rightarrow> [] | Some a \<Rightarrow> [sm a (focusedApp ctx)]) @
          (case screenArea c of None \<Rightarrow> [] | Some r \<Rightarrow> [inScreenArea r (cursor ctx)]))"

text \<open>
  Modelled from the spec: the specificity score of the missing selector, the count of
  the condition fields that are present and satisfied.
\<close>

definition specificity ::
  "(string \<Rightarrow> string \<Rightarrow> bool) \<Rightarrow> Context \<Rightarrow> 'd IMenu \<Rightarrow> nat" where
  "specificity sm ctx m = length (filter (\<lambda>b. b) (conditionResults sm ctx (conditions m)))"

text \<open>
  Modelled from the spec: in the missing selector, a menu with any present condition
  field that is not satisfied is disqualified.
\<close>

definition disqualified ::
  "(string \<Rightarrow> string \<Rightarrow> bool) \<Rightarrow> Context \<Rightarrow> 'd IMenu \<Rightarrow> bool" where
  "disqualified sm ctx m = list_ex (\<lambda>b. \<not> b) (conditionResults sm ctx (conditions m))"

text \<open>
  Modelled from the spec: the surviving candidates of the missing selector, whose
  trigger matches the request and which are not disqualified.
\<close>

definition survives ::
  "(IShowMenuRequest \<Rightarrow> 'd IMenu \<Rightarrow> bool) \<Rightarrow> (string \<Rightarrow> string \<Rightarrow> bool) \<Rightarrow>
   IShowMenuRequest \<Rightarrow> Context \<Rightarrow> 'd IMenu \<Rightarrow> bool" where
  "survives tm sm req ctx m = (tm req m \<and> \<not> disqualified sm ctx m)"

text \<open>
  Modelled from the spec: the choice of the missing selector, the highest score with
  ties going to the earliest menu; in a scan from the front, a later menu replaces the
  best one so far only with a strictly higher score.
\<close>

fun highest :: "('a \<Rightarrow> nat) \<Rightarrow> 'a \<Rightarrow> 'a list \<Rightarrow> 'a" where
  "highest score best [] = best"
| "highest score best (c # cs) = highest score (if score c > score best then c else best) cs"

text \<open>
  Modelled from the spec: the missing selector itself; the best of the survivors, or no
  menu when there is no survivor.
\<close>

definition selectMenu ::
  "(IShowMenuRequest \<Rightarrow> 'd IMenu \<Rightarrow> bool) \<Rightarrow> (string \<Rightarrow> string \<Rightarrow> bool) \<Rightarrow>
   IShowMenuRequest \<Rightarrow> Context \<Rightarrow> 'd IMenu list \<Rightarrow> 'd IMenu option" where
  "selectMenu tm sm req ctx menus =
     (case filter (survives tm sm req ctx) menus of
        [] \<Rightarrow> None
      | m # ms \<Rightarrow> Some (highest (specificity sm ctx) m ms))"

section \<open>The layout resolver\<close>

text \<open>
  The function that computes the angles of sibling items is not among the sources (only
  the \<^verbatim>\<open>angle\<close> property of \<^verbatim>\<open>IMenuItem\<close> is); the definitions of this section
  follow the spec's section on the layout resolver: a fixed item keeps its angle; with no fixed
  item at all, item \<open>i\<close> of \<open>n\<close> gets \<open>i * 360 / n\<close>; otherwise a free item lies in
  the gap between the nearest fixed item before it and the nearest one after it, the
  list being cyclic, and the \<open>r\<close>-th free item (from 0) of the \<open>k\<close> in that gap gets
  \<open>fixedStart + (r + 1) * gapSize / (k + 1)\<close>, brought back into \<open>[0, 360)\<close>.
\<close>

text \<open>
  Modelled from the spec: resolved angles of the missing resolver lie in \<open>[0, 360)\<close>;
  this brings an angle back into that range.
\<close>

definition wrap360 :: "real \<Rightarrow> real" where
  "wrap360 a = a - 360 * of_int \<lfloor>a / 360\<rfloor>"

text \<open>
  Modelled from the spec: the fixed part of the missing resolver's partition, the fixed
  siblings with their original indices, in input order.
\<close>

fun fixedItems :: "nat \<Rightarrow> real option list \<Rightarrow> (nat \<times> real) list" where
  "fixedItems j [] = []"
| "fixedItems j (None # as) = fixedItems (Suc j) as"
| "fixedItems j (Some a # as) = (j, a) # fixedItems (Suc j) as"

text \<open>
  Modelled from the spec: the gap size of the missing resolver, the clockwise span from
  one fixed angle to the next over the cyclic 360 degrees, a full turn when the two
  coincide (a single fixed item).
\<close>

definition gapSize :: "real \<Rightarrow> real \<Rightarrow> real" where
  "gapSize a b = (let g = wrap360 (b - a) in if g = 0 then 360 else g)"

text \<open>
  Modelled from the spec: the angle that the missing resolver gives to sibling \<open>i\<close>.
  \<open>(p, a)\<close> is the nearest fixed item before it and \<open>(q, b)\<close> the nearest one after
  it, around the cycle; \<open>k\<close> counts the free items between the two and \<open>r\<close> the free
  items between \<open>p\<close> and \<open>i\<close>.
\<close>

definition resolveAngle :: "real option list \<Rightarrow> nat \<Rightarrow> real" where
  "resolveAngle as i =
     (let n = length as in
      case as ! i of
        Some a \<Rightarrow> a
      | None \<Rightarrow>
          (case fixedItems 0 as of
             [] \<Rightarrow> real i * 360 / real n
           | f # fs \<Rightarrow>
               let (p, a) = (case rev (filter (\<lambda>(j, x). j < i) (f # fs)) of
                               [] \<Rightarrow> last (f # fs) | e # es \<Rightarrow> e);
                   (q, b) = (case filter (\<lambda>(j, x). i < j) (f # fs) of
                               [] \<Rightarrow> f | e # es \<Rightarrow> e);
                   k = (q + n - p - 1) mod n;
                   r = (i + n - p - 1) mod n
               in wrap360 (a + (real r + 1) * gapSize a b / (real k + 1))))"

text \<open>
  Modelled from the spec: the missing resolver itself, one resolved angle for each
  sibling, in input order.
\<close>

definition resolveAngles :: "'d IMenuItem list \<Rightarrow> real list" where
  "resolveAngles items =
     (let as = map item_angle items in map (resolveAngle as) [0..<length as])"

section \<open>Sample inputs\<close>

text \<open>
  Concrete values for the runs below. \<open>zeroAngle\<close> stands in for \<^verbatim>\<open>getAngle\<close> there:
  the runs never read the angle it computes.
\<close>

definition zeroAngle :: "IVec2 \<Rightarrow> real" where
  "zeroAngle v = 0"

definition origin :: IVec2 where
  "origin = \<lparr>vec_x = 0, vec_y = 0\<rparr>"

definition noModifiers :: Modifiers where
  "noModifiers = \<lparr>ctrlKey = False, metaKey = False, shiftKey = False, altKey = False\<rparr>"

definition ctrlHeld :: Modifiers where
  "ctrlHeld = \<lparr>ctrlKey = True, metaKey = False, shiftKey = False, altKey = False\<rparr>"

definition plainItem :: "string \<Rightarrow> real option \<Rightarrow> unit IMenuItem" where
  "plainItem nm an = MenuItem ''command'' None nm ''icon'' ''theme'' None an"

definition sampleMenu :: "string \<Rightarrow> IMenuConditions option \<Rightarrow> unit IMenu" where
  "sampleMenu nm cs =
     \<lparr>rootItem = MenuItem ''submenu'' None nm ''icon'' ''theme'' (Some []) None,
      shortcut = ''Control+Space'', shortcutID = ''main'', centered = False,
      anchored = False, conditions = cs\<rparr>"

definition byShortcut :: "IShowMenuRequest \<Rightarrow> unit IMenu \<Rightarrow> bool" where
  "byShortcut req m = (trigger req = shortcut m)"

definition sameString :: "string \<Rightarrow> string \<Rightarrow> bool" where
  "sameString pat s = (pat = s)"

definition sampleRequest :: IShowMenuRequest where
  "sampleRequest = \<lparr>trigger = ''Control+Space'', name = []\<rparr>"

definition sampleContext :: Context where
  "sampleContext =
     \<lparr>focusedApp = ''code'', focusedWindow = ''Editor'', cursor = \<lparr>vec_x = 10, vec_y = 10\<rparr>\<rparr>"

definition menuTwoFields :: "unit IMenu" where
  "menuTwoFields =
     sampleMenu ''A''
       (Some \<lparr>windowName = Some ''Editor'', appName = Some ''code'', screenArea = None\<rparr>)"

definition menuOneField :: "unit IMenu" where
  "menuOneField =
     sampleMenu ''B'' (Some \<lparr>windowName = None, appName = Some ''code'', screenArea = None\<rparr>)"

definition menuOtherField :: "unit IMenu" where
  "menuOtherField =
     sampleMenu ''C'' (Some \<lparr>windowName = Some ''Editor'', appName = None, screenArea = None\<rparr>)"

definition menuUnmet :: "unit IMenu" where
  "menuUnmet =
     sampleMenu ''D''
       (Some \<lparr>windowName = Some ''Editor'', appName = Some ''code'',
              screenArea = Some \<lparr>xMin = Some 100, xMax = None, yMin = None, yMax = None\<rparr>\<rparr>)"

section \<open>Facts about the tracker\<close>

lemma sqrt_gt_5: "(5 < sqrt x) = (25 < x)"
proof -
  have "sqrt 25 = 5" by (rule real_sqrt_unique) simp_all
  then have "(5 < sqrt x) = (sqrt 25 < sqrt x)" by simp
  then show ?thesis by (simp only: real_sqrt_less_iff)
qed

lemma getDistance_threshold:
  "(getDistance a b > DRAG_THRESHOLD) =
   (25 < (vec_x a - vec_x b) * (vec_x a - vec_x b) + (vec_y a - vec_y b) * (vec_y a - vec_y b))"
  by (simp add: getDistance_def getLength_def subtract_def DRAG_THRESHOLD_def sqrt_gt_5)

lemma update_fields:
  "state (update ga p a t) = state t"
  "turboMode (update ga p a t) = turboMode t"
  "deferredTurboMode (update ga p a t) = deferredTurboMode t"
  "clickPosition (update ga p a t) = clickPosition t"
  "ignoreMotionEvents (update ga p a t) = ignoreMotionEvents t"
  "emitted (update ga p a t) = emitted t"
  "absolutePosition (update ga p a t) = p"
  by (simp_all add: update_def Let_def)

lemma onMotionEvent_ignored:
  "ignoreMotionEvents t > 0 \<Longrightarrow>
   onMotionEvent ga event a t = Inr (t\<lparr>ignoreMotionEvents := ignoreMotionEvents t - 1\<rparr>)"
  by (simp add: onMotionEvent_def)

text \<open>What an accepted motion event does to each field that the claims read.\<close>

lemma onMotionEvent_accepted:
  assumes "\<not> ignoreMotionEvents t > 0" and "eventPosition event = Inr p"
  shows "\<exists>t'. onMotionEvent ga event a t = Inr t' \<and>
     absolutePosition t' = p \<and>
     clickPosition t' = clickPosition t \<and>
     deferredTurboMode t' = deferredTurboMode t \<and>
     ignoreMotionEvents t' = ignoreMotionEvents t \<and>
     turboMode t' = (turboMode t \<or> (\<not> deferredTurboMode t \<and> anyModifier (modifiers event))) \<and>
     state t' =
       (if turboMode t' then eDragging
        else if state t = eDragging \<or>
                (state t = eClicked \<and> getDistance p (clickPosition t) > DRAG_THRESHOLD)
        then (if isMouseEvent event \<and> buttons event = 0 then eReleased else eDragging)
        else state t) \<and>
     emitted t' = emitted t @ [(p, state t' = eDragging)]"
  using assms
  by (auto simp add: onMotionEvent_def Let_def update_fields anyModifier_def)

lemma call_motion_accepted:
  assumes "\<not> ignoreMotionEvents t > 0" and "eventPosition event = Inr p"
  shows "onMotionEvent ga event a t = Inr (call ga (MotionEvent event a) t)"
  using onMotionEvent_accepted [OF assms, of ga a] by (auto simp add: orUnchanged_def)

lemma onMotionEvent_turbo:
  "onMotionEvent ga event a t = Inr t' \<Longrightarrow>
   deferredTurboMode t' = deferredTurboMode t \<and>
   (turboMode t \<longrightarrow> turboMode t') \<and>
   (deferredTurboMode t \<longrightarrow> turboMode t' = turboMode t)"
proof (cases "ignoreMotionEvents t > 0")
  case True
  assume "onMotionEvent ga event a t = Inr t'"
  with True show ?thesis by (auto simp add: onMotionEvent_ignored)
next
  case False
  assume r: "onMotionEvent ga event a t = Inr t'"
  show ?thesis
  proof (cases "eventPosition event")
    case (Inl e)
    with False r show ?thesis by (simp add: onMotionEvent_def)
  next
    case (Inr p)
    from onMotionEvent_accepted [OF False Inr, of ga a] r show ?thesis by auto
  qed
qed

lemma onPointerDownEvent_turbo:
  "onPointerDownEvent ga event a t = Inr t' \<Longrightarrow>
   deferredTurboMode t' = deferredTurboMode t \<and>
   (turboMode t \<longrightarrow> turboMode t') \<and>
   (deferredTurboMode t \<longrightarrow> turboMode t' = turboMode t)"
proof (cases "eventPosition event")
  case (Inl e)
  assume "onPointerDownEvent ga event a t = Inr t'"
  with Inl show ?thesis by (simp add: onPointerDownEvent_def)
next
  case (Inr p)
  assume "onPointerDownEvent ga event a t = Inr t'"
  with Inr have "onMotionEvent ga event a (t\<lparr>clickPosition := p, state := eClicked\<rparr>) = Inr t'"
    by (simp add: onPointerDownEvent_def)
  from onMotionEvent_turbo [OF this] show ?thesis by simp
qed

text \<open>A call that is not a clearing one keeps turbo mode on, and keeps a deferral.\<close>

lemma call_keeps_turbo:
  assumes "\<not> clearsTurbo c"
  shows "(turboMode t \<longrightarrow> turboMode (call ga c t)) \<and>
         (deferredTurboMode t \<and> \<not> turboMode t \<longrightarrow>
            deferredTurboMode (call ga c t) \<and> \<not> turboMode (call ga c t))"
proof (cases c)
  case (MotionEvent event a)
  show ?thesis
  proof (cases "onMotionEvent ga event a t")
    case (Inl e)
    with MotionEvent show ?thesis by (simp add: orUnchanged_def)
  next
    case (Inr t')
    from onMotionEvent_turbo [OF Inr] Inr MotionEvent show ?thesis
      by (simp add: orUnchanged_def)
  qed
next
  case (PointerDownEvent event a)
  show ?thesis
  proof (cases "onPointerDownEvent ga event a t")
    case (Inl e)
    with PointerDownEvent show ?thesis by (simp add: orUnchanged_def)
  next
    case (Inr t')
    from onPointerDownEvent_turbo [OF Inr] Inr PointerDownEvent show ?thesis
      by (simp add: orUnchanged_def)
  qed
next
  case (KeyUpEvent event)
  with assms show ?thesis by (simp add: onKeyUpEvent_def anyModifier_def)
next
  case (SetDeferredTurboMode val)
  with assms show ?thesis by simp
next
  case PointerUpEvent
  then show ?thesis by (simp add: onPointerUpEvent_def)
next
  case KeyDownEvent
  then show ?thesis by (simp add: onKeyDownEvent_def)
next
  case (Update p a)
  then show ?thesis by (simp add: update_fields)
next
  case IgnoreNextMotionEvents
  then show ?thesis by (simp add: ignoreNextMotionEvents_def)
qed

lemma call_clears_turbo: "clearsTurbo c \<Longrightarrow> \<not> turboMode (call ga c t)"
  by (cases c) (simp_all add: onKeyUpEvent_def anyModifier_def set_deferredTurboMode_def)

lemma motion_not_clearing: "isMotionCall c \<Longrightarrow> \<not> clearsTurbo c"
  by (cases c) simp_all

lemma run_keeps_turbo:
  "turboMode t \<Longrightarrow> \<not> list_ex clearsTurbo cs \<Longrightarrow> turboMode (run ga cs t)"
proof (induction cs arbitrary: t)
  case Nil
  then show ?case by simp
next
  case (Cons c cs)
  from Cons.prems have "turboMode (call ga c t)" using call_keeps_turbo [of c t ga] by simp
  with Cons show ?case by simp
qed

lemma run_keeps_deferral:
  "deferredTurboMode t \<Longrightarrow> \<not> turboMode t \<Longrightarrow> \<not> list_ex clearsTurbo cs \<Longrightarrow>
   deferredTurboMode (run ga cs t) \<and> \<not> turboMode (run ga cs t)"
proof (induction cs arbitrary: t)
  case Nil
  then show ?case by simp
next
  case (Cons c cs)
  from Cons.prems have "deferredTurboMode (call ga c t) \<and> \<not> turboMode (call ga c t)"
    using call_keeps_turbo [of c t ga] by simp
  with Cons show ?case by simp
qed

lemma run_append: "run ga (cs @ ds) t = run ga ds (run ga cs t)"
  by (induction cs arbitrary: t) simp_all

section \<open>Facts about the selector and the resolver\<close>

lemma highest_split_gen:
  "(\<forall>c\<in>set pre. sc c < sc b) \<Longrightarrow> (\<forall>c\<in>set mid. sc c \<le> sc b) \<Longrightarrow>
   \<exists>pre' post. pre @ b # mid @ cs = pre' @ highest sc b cs # post \<and>
      (\<forall>c\<in>set pre'. sc c < sc (highest sc b cs)) \<and>
      (\<forall>c\<in>set post. sc c \<le> sc (highest sc b cs))"
proof (induction cs arbitrary: pre b mid)
  case Nil
  then show ?case by auto
next
  case (Cons c cs)
  show ?case
  proof (cases "sc c > sc b")
    case True
    have "\<forall>d\<in>set (pre @ b # mid). sc d < sc c"
      using Cons.prems True by auto
    from Cons.IH [OF this, of "[]"] True show ?thesis by simp
  next
    case False
    have "\<forall>d\<in>set (mid @ [c]). sc d \<le> sc b"
      using Cons.prems False by auto
    from Cons.IH [OF Cons.prems(1) this] False show ?thesis by simp
  qed
qed

lemma highest_split:
  "\<exists>pre post. b # cs = pre @ highest sc b cs # post \<and>
      (\<forall>c\<in>set pre. sc c < sc (highest sc b cs)) \<and>
      (\<forall>c\<in>set post. sc c \<le> sc (highest sc b cs))"
  using highest_split_gen [of "[]" sc b "[]" cs] by simp

lemma filter_split:
  "filter P xs = pre @ m # post \<Longrightarrow>
   \<exists>pre' post'. xs = pre' @ m # post' \<and> P m \<and> filter P pre' = pre \<and> filter P post' = post"
proof (induction xs arbitrary: pre)
  case Nil
  then show ?case by simp
next
  case (Cons x xs)
  show ?case
  proof (cases "P x")
    case False
    with Cons.prems have "filter P xs = pre @ m # post" by simp
    from Cons.IH [OF this] obtain pre' post' where
      "xs = pre' @ m # post'" "P m" "filter P pre' = pre" "filter P post' = post" by blast
    with False have
      "x # xs = (x # pre') @ m # post' \<and> P m \<and> filter P (x # pre') = pre \<and> filter P post' = post"
      by simp
    then show ?thesis by blast
  next
    case True
    with Cons.prems have eq: "x # filter P xs = pre @ m # post" by simp
    show ?thesis
    proof (cases pre)
      case Nil
      with eq have "x = m" "filter P xs = post" by simp_all
      with True have "x # xs = [] @ m # xs \<and> P m \<and> filter P [] = pre \<and> filter P xs = post"
        using Nil by simp
      then show ?thesis by blast
    next
      case (Cons y ys)
      with eq have "x = y" "filter P xs = ys @ m # post" by simp_all
      from Cons.IH [OF this(2)] obtain pre' post' where
        "xs = pre' @ m # post'" "P m" "filter P pre' = ys" "filter P post' = post" by blast
      with True \<open>x = y\<close> Cons have
        "x # xs = (x # pre') @ m # post' \<and> P m \<and> filter P (x # pre') = pre \<and> filter P post' = post"
        by simp
      then show ?thesis by blast
    qed
  qed
qed

lemma fixedItems_none: "\<forall>a\<in>set as. a = None \<Longrightarrow> fixedItems j as = []"
  by (induction as arbitrary: j) simp_all

lemma resolveAngle_all_free:
  "\<forall>a\<in>set as. a = None \<Longrightarrow> i < length as \<Longrightarrow>
   resolveAngle as i = real i * 360 / real (length as)"
proof -
  assume free: "\<forall>a\<in>set as. a = None" and "i < length as"
  then have "as ! i = None" by simp
  moreover from free have "fixedItems 0 as = []" by (rule fixedItems_none)
  ultimately show ?thesis by (simp add: resolveAngle_def)
qed

section \<open>The claims about the input tracker\<close>

text \<open>
  C1, as amended. In state Clicked, an accepted motion event gives: Dragging at any
  distance when turbo mode is on after the latch (it was on, or the deferral is off and
  a modifier is held); otherwise Clicked when the Euclidean distance of the new absolute
  position from the click origin is at most 5 px; otherwise, beyond 5 px, Dragging,
  which a mouse event that reports no button held turns into Released within the same
  call.
\<close>

theorem C1_drag_threshold:
  assumes "state t = eClicked"
    and "\<not> ignoreMotionEvents t > 0"
    and "eventPosition event = Inr p"
  shows "onMotionEvent ga event a t = Inr (call ga (MotionEvent event a) t) \<and>
     absolutePosition (call ga (MotionEvent event a) t) = p \<and>
     state (call ga (MotionEvent event a) t) =
       (if turboMode t \<or> (\<not> deferredTurboMode t \<and> anyModifier (modifiers event))
        then eDragging
        else if getDistance p (clickPosition t) > 5
        then (if isMouseEvent event \<and> buttons event = 0 then eReleased else eDragging)
        else eClicked)"
  using onMotionEvent_accepted [OF assms(2,3), of ga a] assms(1)
  by (auto simp add: orUnchanged_def DRAG_THRESHOLD_def)

text \<open>
  The example of C1: pointer-down at (0,0) with the button held and no modifier; a
  motion to (3,4), at distance 5, keeps Clicked; a motion to (6,8), at distance 10,
  gives Dragging.
\<close>

theorem C1_drag_threshold_witness:
  "state (run zeroAngle [PointerDownEvent (MouseEvent 0 0 1 noModifiers) origin]
            newInputTracker) = eClicked \<and>
   state (run zeroAngle
            [PointerDownEvent (MouseEvent 0 0 1 noModifiers) origin,
             MotionEvent (MouseEvent 3 4 1 noModifiers) origin] newInputTracker) = eClicked \<and>
   state (run zeroAngle
            [PointerDownEvent (MouseEvent 0 0 1 noModifiers) origin,
             MotionEvent (MouseEvent 3 4 1 noModifiers) origin,
             MotionEvent (MouseEvent 6 8 1 noModifiers) origin] newInputTracker) = eDragging"
proof -
  let ?down = "call zeroAngle (PointerDownEvent (MouseEvent 0 0 1 noModifiers) origin)
                 newInputTracker"
  let ?e1 = "MouseEvent 3 4 1 noModifiers"
  let ?e2 = "MouseEvent 6 8 1 noModifiers"
  let ?m1 = "call zeroAngle (MotionEvent ?e1 origin) ?down"
  note defs = onPointerDownEvent_def onMotionEvent_def update_def Let_def
    orUnchanged_def newInputTracker_def noModifiers_def getDistance_threshold
  have down:
    "state ?down = eClicked" "\<not> ignoreMotionEvents ?down > 0" "\<not> turboMode ?down"
    "\<not> deferredTurboMode ?down" "clickPosition ?down = \<lparr>vec_x = 0, vec_y = 0\<rparr>"
    by (simp_all add: defs)
  have m1:
    "\<not> ignoreMotionEvents ?m1 > 0" "\<not> turboMode ?m1"
    "\<not> deferredTurboMode ?m1" "clickPosition ?m1 = \<lparr>vec_x = 0, vec_y = 0\<rparr>"
    by (simp_all add: defs)
  have p1: "eventPosition ?e1 = Inr \<lparr>vec_x = 3, vec_y = 4\<rparr>" by simp
  have p2: "eventPosition ?e2 = Inr \<lparr>vec_x = 6, vec_y = 8\<rparr>" by simp
  have mods: "\<not> anyModifier (modifiers ?e1)" "\<not> anyModifier (modifiers ?e2)"
    "\<not> (isMouseEvent ?e2 \<and> buttons ?e2 = 0)"
    by (simp_all add: anyModifier_def noModifiers_def)
  have near: "\<not> getDistance \<lparr>vec_x = 3, vec_y = 4\<rparr> \<lparr>vec_x = 0, vec_y = 0\<rparr> > 5"
    using getDistance_threshold [of "\<lparr>vec_x = 3, vec_y = 4\<rparr>" "\<lparr>vec_x = 0, vec_y = 0\<rparr>"]
    by (simp add: DRAG_THRESHOLD_def)
  have far: "getDistance \<lparr>vec_x = 6, vec_y = 8\<rparr> \<lparr>vec_x = 0, vec_y = 0\<rparr> > 5"
    using getDistance_threshold [of "\<lparr>vec_x = 6, vec_y = 8\<rparr>" "\<lparr>vec_x = 0, vec_y = 0\<rparr>"]
    by (simp add: DRAG_THRESHOLD_def)
  have s1: "state ?m1 = eClicked"
    using C1_drag_threshold [OF down(1) down(2) p1, of zeroAngle origin]
    by (simp only: down mods near if_False simp_thms)
  have s2: "state (call zeroAngle (MotionEvent ?e2 origin) ?m1) = eDragging"
    using C1_drag_threshold [OF s1 m1(1) p2, of zeroAngle origin]
    by (simp only: m1 mods far if_True if_False simp_thms)
  from down(1) s1 s2 show ?thesis by (simp only: run.simps)
qed

text \<open>
  C1 as stated fails: after the same pointer-down, a motion to (3,4) with the control
  key held gives Dragging, although the distance from the click origin is 5.
\<close>

theorem C1_counterexample:
  "state (run zeroAngle [PointerDownEvent (MouseEvent 0 0 1 noModifiers) origin]
            newInputTracker) = eClicked \<and>
   absolutePosition (run zeroAngle
            [PointerDownEvent (MouseEvent 0 0 1 noModifiers) origin,
             MotionEvent (MouseEvent 3 4 1 ctrlHeld) origin] newInputTracker)
     = \<lparr>vec_x = 3, vec_y = 4\<rparr> \<and>
   clickPosition (run zeroAngle
            [PointerDownEvent (MouseEvent 0 0 1 noModifiers) origin,
             MotionEvent (MouseEvent 3 4 1 ctrlHeld) origin] newInputTracker)
     = \<lparr>vec_x = 0, vec_y = 0\<rparr> \<and>
   getDistance \<lparr>vec_x = 3, vec_y = 4\<rparr> \<lparr>vec_x = 0, vec_y = 0\<rparr> \<le> 5 \<and>
   state (run zeroAngle
            [PointerDownEvent (MouseEvent 0 0 1 noModifiers) origin,
             MotionEvent (MouseEvent 3 4 1 ctrlHeld) origin] newInputTracker) = eDragging"
proof -
  have "\<not> getDistance \<lparr>vec_x = 3, vec_y = 4\<rparr> \<lparr>vec_x = 0, vec_y = 0\<rparr> > 5"
    using getDistance_threshold [of "\<lparr>vec_x = 3, vec_y = 4\<rparr>" "\<lparr>vec_x = 0, vec_y = 0\<rparr>"]
    by (simp add: DRAG_THRESHOLD_def)
  then show ?thesis
    by (simp add: onPointerDownEvent_def onMotionEvent_def update_def Let_def
          orUnchanged_def newInputTracker_def noModifiers_def ctrlHeld_def
          getDistance_threshold)
qed

text \<open>
  C2, as amended. Once turbo mode is on, no sequence of motion events switches it off,
  whatever their modifiers and buttons; a call switches it off only if it is an
  \<^verbatim>\<open>onKeyUpEvent\<close> with no modifier still held or an assignment to the
  \<^verbatim>\<open>deferredTurboMode\<close> setter, and each of those two does switch it off.
\<close>

theorem C2_turbo_latch:
  assumes "turboMode t"
  shows "(list_all isMotionCall cs \<longrightarrow> turboMode (run ga cs t)) \<and>
         (\<not> turboMode (call ga c t) \<longrightarrow> clearsTurbo c) \<and>
         (clearsTurbo c \<longrightarrow> \<not> turboMode (call ga c t))"
proof (intro conjI impI)
  assume "list_all isMotionCall cs"
  then have "\<not> list_ex clearsTurbo cs"
    by (auto simp add: list_all_iff list_ex_iff motion_not_clearing)
  with assms show "turboMode (run ga cs t)" by (rule run_keeps_turbo)
next
  assume off: "\<not> turboMode (call ga c t)"
  show "clearsTurbo c"
  proof (rule ccontr)
    assume "\<not> clearsTurbo c"
    from call_keeps_turbo [OF this, of t ga] assms off show False by simp
  qed
next
  assume "clearsTurbo c"
  then show "\<not> turboMode (call ga c t)" by (rule call_clears_turbo)
qed

text \<open>
  A run for C2: a key-down switches turbo mode on; two motion events with no modifier
  and no button, a mouse and a touch one, leave it on; a key-up with no modifier
  switches it off.
\<close>

theorem C2_turbo_latch_witness:
  "turboMode (run zeroAngle [KeyDownEvent] newInputTracker) \<and>
   turboMode (run zeroAngle
      [MotionEvent (MouseEvent 3 4 0 noModifiers) origin,
       MotionEvent (TouchEvent [origin] noModifiers) origin]
      (run zeroAngle [KeyDownEvent] newInputTracker)) \<and>
   \<not> turboMode (call zeroAngle (KeyUpEvent (KeyboardEvent noModifiers))
      (run zeroAngle [KeyDownEvent] newInputTracker))"
proof -
  have on: "turboMode (run zeroAngle [KeyDownEvent] newInputTracker)"
    by (simp add: onKeyDownEvent_def newInputTracker_def)
  have motions: "list_all isMotionCall
      [MotionEvent (MouseEvent 3 4 0 noModifiers) origin,
       MotionEvent (TouchEvent [origin] noModifiers) origin]"
    by simp
  have clearing: "clearsTurbo (KeyUpEvent (KeyboardEvent noModifiers))"
    by (simp add: anyModifier_def noModifiers_def)
  from C2_turbo_latch [OF on, of _ zeroAngle "KeyUpEvent (KeyboardEvent noModifiers)"]
    on motions clearing
  show ?thesis by blast
qed

text \<open>
  C2 as stated fails: with turbo mode on after a key-down, assigning the setter, which
  is no \<^verbatim>\<open>onKeyUpEvent\<close>, switches it off.
\<close>

theorem C2_counterexample:
  "turboMode (run zeroAngle [KeyDownEvent] newInputTracker) \<and>
   \<not> turboMode (run zeroAngle [KeyDownEvent, SetDeferredTurboMode False] newInputTracker)"
  by (simp add: onKeyDownEvent_def set_deferredTurboMode_def newInputTracker_def)

text \<open>
  C3, as amended. After \<^verbatim>\<open>deferredTurboMode = true\<close>, a key-down does not switch
  turbo mode on: through any calls that hold no key-up without modifiers and no further
  assignment to the setter, the deferral stays and a following key-down leaves turbo
  mode off. A key-up with no modifier held ends the deferral, and the key-down right
  after it switches turbo mode on.
\<close>

theorem C3_deferred_turbo:
  assumes "\<not> list_ex clearsTurbo cs"
    and "\<not> anyModifier (key_modifiers event)"
  shows "\<not> turboMode (run ga (cs @ [KeyDownEvent]) (set_deferredTurboMode True t)) \<and>
         turboMode (run ga (cs @ [KeyUpEvent event, KeyDownEvent])
                      (set_deferredTurboMode True t))"
proof -
  let ?t = "run ga cs (set_deferredTurboMode True t)"
  have "deferredTurboMode (set_deferredTurboMode True t)"
    and "\<not> turboMode (set_deferredTurboMode True t)"
    by (simp_all add: set_deferredTurboMode_def)
  from run_keeps_deferral [OF this assms(1), of ga]
  have kept: "deferredTurboMode ?t" "\<not> turboMode ?t" by simp_all
  from kept have "\<not> turboMode (onKeyDownEvent ?t)" by (simp add: onKeyDownEvent_def)
  moreover from assms(2) have "turboMode (onKeyDownEvent (onKeyUpEvent event ?t))"
    by (simp add: onKeyDownEvent_def onKeyUpEvent_def anyModifier_def)
  ultimately show ?thesis by (simp add: run_append)
qed

text \<open>
  A run for C3: the deferral is set, a key goes down, the pointer moves with the
  control key held, and a second key goes down: turbo mode is still off. After a key-up
  with no modifier left, the next key-down switches it on.
\<close>

theorem C3_deferred_turbo_witness:
  "\<not> turboMode (run zeroAngle
      ([KeyDownEvent, MotionEvent (MouseEvent 3 4 0 ctrlHeld) origin] @ [KeyDownEvent])
      (set_deferredTurboMode True newInputTracker)) \<and>
   turboMode (run zeroAngle
      ([KeyDownEvent, MotionEvent (MouseEvent 3 4 0 ctrlHeld) origin] @
       [KeyUpEvent (KeyboardEvent noModifiers), KeyDownEvent])
      (set_deferredTurboMode True newInputTracker))"
proof -
  have quiet: "\<not> list_ex clearsTurbo
      [KeyDownEvent, MotionEvent (MouseEvent 3 4 0 ctrlHeld) origin]"
    by simp
  have released: "\<not> anyModifier (key_modifiers (KeyboardEvent noModifiers))"
    by (simp add: anyModifier_def noModifiers_def)
  from C3_deferred_turbo [OF quiet released] show ?thesis .
qed

text \<open>
  C3 as stated fails: the first key-down after \<^verbatim>\<open>deferredTurboMode = true\<close> leaves
  turbo mode off.
\<close>

theorem C3_counterexample:
  "\<not> turboMode (run zeroAngle [SetDeferredTurboMode True, KeyDownEvent] newInputTracker)"
  by (simp add: onKeyDownEvent_def set_deferredTurboMode_def newInputTracker_def)

text \<open>
  C4. After \<^verbatim>\<open>ignoreNextMotionEvents\<close>, the first motion event only lowers the counter
  to 1 and the second only lowers it to 0: no other field changes and nothing is
  emitted, whatever the events are. The third is processed: when it carries a
  position, that position becomes the absolute position and one notification with it
  is emitted.
\<close>

theorem C4_ignore_two_motion_events:
  "onMotionEvent ga e1 a1 (ignoreNextMotionEvents t) = Inr (t\<lparr>ignoreMotionEvents := 1\<rparr>) \<and>
   onMotionEvent ga e2 a2 (t\<lparr>ignoreMotionEvents := 1\<rparr>) = Inr (t\<lparr>ignoreMotionEvents := 0\<rparr>) \<and>
   run ga [IgnoreNextMotionEvents, MotionEvent e1 a1, MotionEvent e2 a2] t
     = t\<lparr>ignoreMotionEvents := 0\<rparr> \<and>
   (eventPosition e3 = Inr p \<longrightarrow>
      onMotionEvent ga e3 a3 (t\<lparr>ignoreMotionEvents := 0\<rparr>)
        = Inr (call ga (MotionEvent e3 a3) (t\<lparr>ignoreMotionEvents := 0\<rparr>)) \<and>
      absolutePosition (call ga (MotionEvent e3 a3) (t\<lparr>ignoreMotionEvents := 0\<rparr>)) = p \<and>
      ignoreMotionEvents (call ga (MotionEvent e3 a3) (t\<lparr>ignoreMotionEvents := 0\<rparr>)) = 0 \<and>
      emitted (call ga (MotionEvent e3 a3) (t\<lparr>ignoreMotionEvents := 0\<rparr>))
        = emitted t @
          [(p, state (call ga (MotionEvent e3 a3) (t\<lparr>ignoreMotionEvents := 0\<rparr>)) = eDragging)])"
proof -
  have first: "onMotionEvent ga e1 a1 (ignoreNextMotionEvents t)
      = Inr (t\<lparr>ignoreMotionEvents := 1\<rparr>)"
    by (simp add: onMotionEvent_def ignoreNextMotionEvents_def)
  have second: "onMotionEvent ga e2 a2 (t\<lparr>ignoreMotionEvents := 1\<rparr>)
      = Inr (t\<lparr>ignoreMotionEvents := 0\<rparr>)"
    by (simp add: onMotionEvent_def)
  have both: "run ga [IgnoreNextMotionEvents, MotionEvent e1 a1, MotionEvent e2 a2] t
      = t\<lparr>ignoreMotionEvents := 0\<rparr>"
    by (simp add: first second orUnchanged_def)
  have third: "eventPosition e3 = Inr p \<longrightarrow>
      onMotionEvent ga e3 a3 (t\<lparr>ignoreMotionEvents := 0\<rparr>)
        = Inr (call ga (MotionEvent e3 a3) (t\<lparr>ignoreMotionEvents := 0\<rparr>)) \<and>
      absolutePosition (call ga (MotionEvent e3 a3) (t\<lparr>ignoreMotionEvents := 0\<rparr>)) = p \<and>
      ignoreMotionEvents (call ga (MotionEvent e3 a3) (t\<lparr>ignoreMotionEvents := 0\<rparr>)) = 0 \<and>
      emitted (call ga (MotionEvent e3 a3) (t\<lparr>ignoreMotionEvents := 0\<rparr>))
        = emitted t @
          [(p, state (call ga (MotionEvent e3 a3) (t\<lparr>ignoreMotionEvents := 0\<rparr>)) = eDragging)]"
  proof
    assume pos: "eventPosition e3 = Inr p"
    have acc: "\<not> ignoreMotionEvents (t\<lparr>ignoreMotionEvents := 0\<rparr>) > 0" by simp
    from onMotionEvent_accepted [OF acc pos, of ga a3]
    show "onMotionEvent ga e3 a3 (t\<lparr>ignoreMotionEvents := 0\<rparr>)
        = Inr (call ga (MotionEvent e3 a3) (t\<lparr>ignoreMotionEvents := 0\<rparr>)) \<and>
      absolutePosition (call ga (MotionEvent e3 a3) (t\<lparr>ignoreMotionEvents := 0\<rparr>)) = p \<and>
      ignoreMotionEvents (call ga (MotionEvent e3 a3) (t\<lparr>ignoreMotionEvents := 0\<rparr>)) = 0 \<and>
      emitted (call ga (MotionEvent e3 a3) (t\<lparr>ignoreMotionEvents := 0\<rparr>))
        = emitted t @
          [(p, state (call ga (MotionEvent e3 a3) (t\<lparr>ignoreMotionEvents := 0\<rparr>)) = eDragging)]"
      by (auto simp add: orUnchanged_def)
  qed
  from first second both third show ?thesis by (intro conjI)
qed

text \<open>
  A run for C4 on a new tracker: two touch events without any touch point are swallowed
  without an exception, and the third event, a mouse motion to (7,9), is the first to
  be seen and emits the one notification.
\<close>

theorem C4_ignore_two_motion_events_witness:
  "run zeroAngle
     [IgnoreNextMotionEvents, MotionEvent (TouchEvent [] ctrlHeld) origin,
      MotionEvent (TouchEvent [] ctrlHeld) origin] newInputTracker
     = newInputTracker\<lparr>ignoreMotionEvents := 0\<rparr> \<and>
   eventPosition (MouseEvent 7 9 0 noModifiers) = Inr \<lparr>vec_x = 7, vec_y = 9\<rparr> \<and>
   absolutePosition (call zeroAngle (MotionEvent (MouseEvent 7 9 0 noModifiers) origin)
      (newInputTracker\<lparr>ignoreMotionEvents := 0\<rparr>)) = \<lparr>vec_x = 7, vec_y = 9\<rparr> \<and>
   emitted (call zeroAngle (MotionEvent (MouseEvent 7 9 0 noModifiers) origin)
      (newInputTracker\<lparr>ignoreMotionEvents := 0\<rparr>)) = [(\<lparr>vec_x = 7, vec_y = 9\<rparr>, False)]"
proof -
  have pos: "eventPosition (MouseEvent 7 9 0 noModifiers) = Inr \<lparr>vec_x = 7, vec_y = 9\<rparr>"
    by simp
  have st: "state (call zeroAngle (MotionEvent (MouseEvent 7 9 0 noModifiers) origin)
      (newInputTracker\<lparr>ignoreMotionEvents := 0\<rparr>)) \<noteq> eDragging"
    by (simp add: onMotionEvent_def update_def Let_def orUnchanged_def
          newInputTracker_def noModifiers_def)
  have em: "emitted newInputTracker = []" by (simp add: newInputTracker_def)
  from C4_ignore_two_motion_events
    [of zeroAngle "TouchEvent [] ctrlHeld" origin newInputTracker
        "TouchEvent [] ctrlHeld" origin "MouseEvent 7 9 0 noModifiers"
        "\<lparr>vec_x = 7, vec_y = 9\<rparr>" origin]
    pos st em
  show ?thesis by (simp del: call.simps run.simps)
qed

text \<open>
  C5, as amended. For a motion event that is not ignored and carries a position (a
  mouse event, or a touch event with at least one touch point): when turbo mode
  is on (before the event, or after its latch), the state afterwards is Dragging,
  whatever the buttons; otherwise, when the state was Dragging and the event is a mouse
  event with no button held, the state afterwards is Released; and in every case the
  call returns with exactly one more notification emitted, made of the absolute
  position, which is the event's position, and of whether the state is Dragging.
\<close>

theorem C5_accepted_motion_event:
  assumes "\<not> ignoreMotionEvents t > 0"
    and "eventPosition event = Inr p"
  shows "onMotionEvent ga event a t = Inr (call ga (MotionEvent event a) t) \<and>
     (turboMode t \<or> turboMode (call ga (MotionEvent event a) t) \<longrightarrow>
        state (call ga (MotionEvent event a) t) = eDragging) \<and>
     (\<not> turboMode (call ga (MotionEvent event a) t) \<and> state t = eDragging \<and>
      isMouseEvent event \<and> buttons event = 0 \<longrightarrow>
        state (call ga (MotionEvent event a) t) = eReleased) \<and>
     absolutePosition (call ga (MotionEvent event a) t) = p \<and>
     emitted (call ga (MotionEvent event a) t) =
       emitted t @ [(absolutePosition (call ga (MotionEvent event a) t),
                     state (call ga (MotionEvent event a) t) = eDragging)]"
  using onMotionEvent_accepted [OF assms, of ga a]
  by (auto simp add: orUnchanged_def)

text \<open>
  Two events for C5 on a tracker that is dragging with no button held: with the shift
  key held the state stays Dragging and the flag sent is true; with no modifier the
  state becomes Released and the flag sent is false.
\<close>

theorem C5_accepted_motion_event_witness:
  "state (call zeroAngle
      (MotionEvent (MouseEvent 1 2 0 (noModifiers\<lparr>shiftKey := True\<rparr>)) origin)
      (newInputTracker\<lparr>state := eDragging\<rparr>)) = eDragging \<and>
   emitted (call zeroAngle
      (MotionEvent (MouseEvent 1 2 0 (noModifiers\<lparr>shiftKey := True\<rparr>)) origin)
      (newInputTracker\<lparr>state := eDragging\<rparr>)) = [(\<lparr>vec_x = 1, vec_y = 2\<rparr>, True)] \<and>
   state (call zeroAngle (MotionEvent (MouseEvent 1 2 0 noModifiers) origin)
      (newInputTracker\<lparr>state := eDragging\<rparr>)) = eReleased \<and>
   emitted (call zeroAngle (MotionEvent (MouseEvent 1 2 0 noModifiers) origin)
      (newInputTracker\<lparr>state := eDragging\<rparr>)) = [(\<lparr>vec_x = 1, vec_y = 2\<rparr>, False)]"
proof -
  let ?t = "newInputTracker\<lparr>state := eDragging\<rparr>"
  let ?shift = "MouseEvent 1 2 0 (noModifiers\<lparr>shiftKey := True\<rparr>)"
  let ?plain = "MouseEvent 1 2 0 noModifiers"
  have acc: "\<not> ignoreMotionEvents ?t > 0" by (simp add: newInputTracker_def)
  have ps: "eventPosition ?shift = Inr \<lparr>vec_x = 1, vec_y = 2\<rparr>" by simp
  have pp: "eventPosition ?plain = Inr \<lparr>vec_x = 1, vec_y = 2\<rparr>" by simp
  have pre: "state ?t = eDragging" "emitted ?t = []"
    "isMouseEvent ?plain" "buttons ?plain = 0"
    by (simp_all add: newInputTracker_def)
  have turbo: "turboMode (call zeroAngle (MotionEvent ?shift origin) ?t)"
    "\<not> turboMode (call zeroAngle (MotionEvent ?plain origin) ?t)"
    by (simp_all add: onMotionEvent_def update_def Let_def orUnchanged_def
          newInputTracker_def noModifiers_def)
  from C5_accepted_motion_event [OF acc ps, of zeroAngle origin] turbo(1) pre
  have one: "state (call zeroAngle (MotionEvent ?shift origin) ?t) = eDragging \<and>
      emitted (call zeroAngle (MotionEvent ?shift origin) ?t)
        = [(\<lparr>vec_x = 1, vec_y = 2\<rparr>, True)]"
    by (simp del: call.simps)
  from C5_accepted_motion_event [OF acc pp, of zeroAngle origin] turbo(2) pre
  have two: "state (call zeroAngle (MotionEvent ?plain origin) ?t) = eReleased \<and>
      emitted (call zeroAngle (MotionEvent ?plain origin) ?t)
        = [(\<lparr>vec_x = 1, vec_y = 2\<rparr>, False)]"
    by (simp del: call.simps)
  from one two show ?thesis by (intro conjI) simp_all
qed

text \<open>
  C5 as stated fails: on a tracker in turbo mode with the ignore counter at 0, a touch
  event without any touch point is not ignored, yet the handler throws while it reads
  the first touch: the state is not forced to Dragging and no notification is emitted.
\<close>

theorem C5_counterexample:
  "\<not> ignoreMotionEvents (run zeroAngle [KeyDownEvent] newInputTracker) > 0 \<and>
   turboMode (run zeroAngle [KeyDownEvent] newInputTracker) \<and>
   onMotionEvent zeroAngle (TouchEvent [] noModifiers) origin
     (run zeroAngle [KeyDownEvent] newInputTracker) = Inl TypeError \<and>
   state (run zeroAngle [KeyDownEvent, MotionEvent (TouchEvent [] noModifiers) origin]
            newInputTracker) = eReleased \<and>
   emitted (run zeroAngle [KeyDownEvent, MotionEvent (TouchEvent [] noModifiers) origin]
              newInputTracker) = []"
  by (simp add: onMotionEvent_def onKeyDownEvent_def orUnchanged_def newInputTracker_def)

text \<open>
  C6. \<^verbatim>\<open>onPointerUpEvent\<close> sets the state to Released in every tracker state and
  leaves every other field as it is: turbo mode, the deferral, the absolute and
  relative positions, distance, angle, click origin and ignore counter; the sequence
  of emitted notifications is unchanged too, so nothing is emitted.
\<close>

theorem C6_pointer_up_frame:
  "state (onPointerUpEvent t) = eReleased \<and>
   turboMode (onPointerUpEvent t) = turboMode t \<and>
   deferredTurboMode (onPointerUpEvent t) = deferredTurboMode t \<and>
   absolutePosition (onPointerUpEvent t) = absolutePosition t \<and>
   relativePosition (onPointerUpEvent t) = relativePosition t \<and>
   distance (onPointerUpEvent t) = distance t \<and>
   angle (onPointerUpEvent t) = angle t \<and>
   clickPosition (onPointerUpEvent t) = clickPosition t \<and>
   ignoreMotionEvents (onPointerUpEvent t) = ignoreMotionEvents t \<and>
   emitted (onPointerUpEvent t) = emitted t \<and>
   onPointerUpEvent t = t\<lparr>state := eReleased\<rparr>"
  by (simp add: onPointerUpEvent_def)

text \<open>
  C9. Assigning the \<^verbatim>\<open>deferredTurboMode\<close> setter switches turbo mode off for either
  value, and stores the value; no other field changes. In particular the assignment
  of false to a tracker in turbo mode leaves turbo mode off, with no look at any
  modifier.
\<close>

theorem C9_setter_clears_turbo:
  "turboMode (set_deferredTurboMode val t) = False \<and>
   deferredTurboMode (set_deferredTurboMode val t) = val \<and>
   turboMode (set_deferredTurboMode False (t\<lparr>turboMode := True\<rparr>)) = False \<and>
   set_deferredTurboMode val t = t\<lparr>deferredTurboMode := val, turboMode := False\<rparr>"
  by (simp add: set_deferredTurboMode_def)

section \<open>The claim about copying menu items\<close>

text \<open>
  C10. \<^verbatim>\<open>deepCopyMenuItem\<close> returns a menu item equal to its argument: the type, data,
  name, icon, icon theme and angle are the same and the children are, recursively,
  equal copies.
\<close>

theorem C10_deepCopyMenuItem_identity: "deepCopyMenuItem item = item"
  by (induction item) (auto intro!: option.map_ident_strong list.map_ident_strong)

section \<open>The claims about the selector and the resolver\<close>

text \<open>
  C7. The selector returns no menu exactly when no menu of the list survives (trigger
  matching, no condition field present and unmet). A menu it returns occurs in the
  list, its trigger matches, none of its present fields is unmet, every survivor
  declared before it has a strictly lower specificity score, and every survivor
  declared after it has a score that is not higher: it is the earliest of the
  survivors with the highest score. A menu with a present but unmet field is never
  returned.
\<close>

theorem C7_selectMenu_most_specific:
  "(selectMenu tm sm req ctx menus = None) =
     (\<forall>m\<in>set menus. \<not> survives tm sm req ctx m) \<and>
   (selectMenu tm sm req ctx menus = Some m \<longrightarrow>
      tm req m \<and> \<not> disqualified sm ctx m \<and>
      (\<exists>pre post. menus = pre @ m # post \<and>
         (\<forall>c\<in>set pre. survives tm sm req ctx c \<longrightarrow> specificity sm ctx c < specificity sm ctx m) \<and>
         (\<forall>c\<in>set post. survives tm sm req ctx c \<longrightarrow>
            specificity sm ctx c \<le> specificity sm ctx m)))"
proof (intro conjI impI)
  show "(selectMenu tm sm req ctx menus = None) =
     (\<forall>m\<in>set menus. \<not> survives tm sm req ctx m)"
  proof (cases "filter (survives tm sm req ctx) menus")
    case Nil
    then show ?thesis by (simp add: selectMenu_def filter_empty_conv)
  next
    case (Cons b cs)
    then have "b \<in> set (filter (survives tm sm req ctx) menus)" by simp
    then have "b \<in> set menus \<and> survives tm sm req ctx b" by simp
    with Cons show ?thesis by (auto simp add: selectMenu_def)
  qed
next
  assume sel: "selectMenu tm sm req ctx menus = Some m"
  then obtain b cs where f: "filter (survives tm sm req ctx) menus = b # cs"
    and m: "m = highest (specificity sm ctx) b cs"
    by (auto simp add: selectMenu_def split: list.splits)
  from highest_split [of b cs "specificity sm ctx"] m obtain pre post where
    sp: "b # cs = pre @ m # post"
    and lo: "\<forall>c\<in>set pre. specificity sm ctx c < specificity sm ctx m"
    and hi: "\<forall>c\<in>set post. specificity sm ctx c \<le> specificity sm ctx m"
    by auto
  from f sp have "filter (survives tm sm req ctx) menus = pre @ m # post" by simp
  from filter_split [OF this] obtain pre' post' where
    ms: "menus = pre' @ m # post'" and sv: "survives tm sm req ctx m"
    and fp: "filter (survives tm sm req ctx) pre' = pre"
    and fq: "filter (survives tm sm req ctx) post' = post"
    by blast
  from sv show "tm req m" by (simp add: survives_def)
  from sv show "\<not> disqualified sm ctx m" by (simp add: survives_def)
  have "\<forall>c\<in>set pre'. survives tm sm req ctx c \<longrightarrow>
      specificity sm ctx c < specificity sm ctx m"
    using lo fp by auto
  moreover have "\<forall>c\<in>set post'. survives tm sm req ctx c \<longrightarrow>
      specificity sm ctx c \<le> specificity sm ctx m"
    using hi fq by auto
  ultimately show "\<exists>pre post. menus = pre @ m # post \<and>
      (\<forall>c\<in>set pre. survives tm sm req ctx c \<longrightarrow> specificity sm ctx c < specificity sm ctx m) \<and>
      (\<forall>c\<in>set post. survives tm sm req ctx c \<longrightarrow>
         specificity sm ctx c \<le> specificity sm ctx m)"
    using ms by blast
qed

text \<open>
  Two selections for C7. Of a menu with an unmet screen area, a menu with one met
  field and a menu with two met fields, the last is chosen. Of the menu with the unmet
  field and two menus with one met field each, the one declared first is chosen.
\<close>

theorem C7_selectMenu_most_specific_witness:
  "selectMenu byShortcut sameString sampleRequest sampleContext
     [menuUnmet, menuOneField, menuTwoFields] = Some menuTwoFields \<and>
   byShortcut sampleRequest menuTwoFields \<and>
   \<not> disqualified sameString sampleContext menuTwoFields \<and>
   disqualified sameString sampleContext menuUnmet \<and>
   specificity sameString sampleContext menuOneField = 1 \<and>
   specificity sameString sampleContext menuTwoFields = 2 \<and>
   selectMenu byShortcut sameString sampleRequest sampleContext
     [menuUnmet, menuOneField, menuOtherField] = Some menuOneField \<and>
   specificity sameString sampleContext menuOtherField = 1"
proof -
  note defs = selectMenu_def survives_def disqualified_def specificity_def
    conditionResults_def inScreenArea_def byShortcut_def sameString_def
    sampleRequest_def sampleContext_def sampleMenu_def
    menuUnmet_def menuOneField_def menuOtherField_def menuTwoFields_def
  have first: "selectMenu byShortcut sameString sampleRequest sampleContext
      [menuUnmet, menuOneField, menuTwoFields] = Some menuTwoFields"
    by (simp add: defs)
  have second: "selectMenu byShortcut sameString sampleRequest sampleContext
      [menuUnmet, menuOneField, menuOtherField] = Some menuOneField"
    by (simp add: defs)
  have scores: "disqualified sameString sampleContext menuUnmet"
    "specificity sameString sampleContext menuOneField = 1"
    "specificity sameString sampleContext menuTwoFields = 2"
    "specificity sameString sampleContext menuOtherField = 1"
    by (simp_all add: defs)
  from C7_selectMenu_most_specific
    [of byShortcut sameString sampleRequest sampleContext
        "[menuUnmet, menuOneField, menuTwoFields]" menuTwoFields] first
  have "byShortcut sampleRequest menuTwoFields \<and>
      \<not> disqualified sameString sampleContext menuTwoFields"
    by blast
  with first second scores show ?thesis by (intro conjI) simp_all
qed

text \<open>
  C8. For a sibling list in which no item has a fixed angle, the resolver returns one
  angle for each item, and item \<open>i\<close> (from 0, in input order) gets \<open>i * 360 / n\<close>; a
  single free item gets 0. The result is a function of the siblings' angle properties
  alone, so resolving the same input again gives the same angles.
\<close>

theorem C8_resolveAngles_all_free:
  assumes "\<forall>item\<in>set items. item_angle item = None"
  shows "length (resolveAngles items) = length items \<and>
     (\<forall>i<length items. resolveAngles items ! i = real i * 360 / real (length items)) \<and>
     (length items = 1 \<longrightarrow> resolveAngles items = [0]) \<and>
     (map item_angle others = map item_angle items \<longrightarrow>
        resolveAngles others = resolveAngles items)"
proof (intro conjI allI impI)
  show len: "length (resolveAngles items) = length items"
    by (simp add: resolveAngles_def)
  have free: "\<forall>a\<in>set (map item_angle items). a = None" using assms by simp
  show nth: "resolveAngles items ! i = real i * 360 / real (length items)"
    if "i < length items" for i
    using that resolveAngle_all_free [OF free, of i] by (simp add: resolveAngles_def)
  show "resolveAngles items = [0]" if one: "length items = 1"
  proof -
    from nth [of 0] one have "resolveAngles items ! 0 = 0" by simp
    moreover from len one have "length (resolveAngles items) = 1" by simp
    ultimately show ?thesis by (cases "resolveAngles items") simp_all
  qed
  show "resolveAngles others = resolveAngles items"
    if "map item_angle others = map item_angle items"
    using that by (simp add: resolveAngles_def)
qed

text \<open>
  Four free siblings for C8 are placed at 0, 90, 180 and 270 degrees, and a single
  free item at the top.
\<close>

theorem C8_resolveAngles_all_free_witness:
  "resolveAngles [plainItem ''a'' None, plainItem ''b'' None, plainItem ''c'' None,
                  plainItem ''d'' None] = [0, 90, 180, 270] \<and>
   resolveAngles [plainItem ''a'' None] = [0]"
proof -
  let ?four = "[plainItem ''a'' None, plainItem ''b'' None, plainItem ''c'' None,
                plainItem ''d'' None]"
  have free4: "\<forall>item\<in>set ?four. item_angle item = None" by (simp add: plainItem_def)
  have free1: "\<forall>item\<in>set [plainItem ''a'' None]. item_angle item = None"
    by (simp add: plainItem_def)
  from C8_resolveAngles_all_free [OF free4, where others = "[]"]
  have len: "length (resolveAngles ?four) = 4"
    and nth: "\<forall>i<4. resolveAngles ?four ! i = real i * 360 / 4"
    by simp_all
  have "resolveAngles ?four ! 0 = 0" "resolveAngles ?four ! 1 = 90"
    "resolveAngles ?four ! 2 = 180" "resolveAngles ?four ! 3 = 270"
    using nth by simp_all
  with len have four: "resolveAngles ?four = [0, 90, 180, 270]"
    by (intro nth_equalityI) (auto simp add: less_Suc_eq numeral_eq_Suc)
  from C8_resolveAngles_all_free [OF free1, where others = "[]"] have "resolveAngles [plainItem ''a'' None] = [0]"
    by simp
  with four show ?thesis by simp
qed

end
